theory Spec2Isabelle
  imports Complex_Main "HOL-Library.Multiset"
begin

section \<open>Values of the program\<close>

text \<open>
  A \<open>float64\<close> is a finite number, an infinity or NaN. The finite values are a subset of
  the rationals; the model takes all rationals, so a statement about every \<open>float64\<close> of the model
  covers every value of the program. The absolute value and the comparisons of IEEE 754
  are exact and are defined here. Arithmetic that rounds is not defined: it is a parameter
  of the environment below.
\<close>

datatype float64 = Fin rat | PInf | NInf | NaN

text \<open>\<open>math.Abs\<close>.\<close>

fun fabs :: "float64 \<Rightarrow> float64" where
  "fabs (Fin x) = Fin \<bar>x\<bar>"
| "fabs PInf = PInf"
| "fabs NInf = PInf"
| "fabs NaN = NaN"

text \<open>The operator \<open><\<close> on \<open>float64\<close>: false whenever an operand is NaN.\<close>

fun flt :: "float64 \<Rightarrow> float64 \<Rightarrow> bool" where
  "flt NaN _ = False"
| "flt _ NaN = False"
| "flt (Fin x) (Fin y) = (x < y)"
| "flt (Fin x) PInf = True"
| "flt (Fin x) NInf = False"
| "flt PInf _ = False"
| "flt NInf NInf = False"
| "flt NInf _ = True"

text \<open>The operator \<open>>=\<close> on \<open>float64\<close>: false whenever an operand is NaN.\<close>

fun fge :: "float64 \<Rightarrow> float64 \<Rightarrow> bool" where
  "fge NaN _ = False"
| "fge _ NaN = False"
| "fge (Fin x) (Fin y) = (y \<le> x)"
| "fge (Fin x) PInf = False"
| "fge (Fin x) NInf = True"
| "fge PInf _ = True"
| "fge NInf NInf = True"
| "fge NInf _ = False"

text \<open>An instant (\<open>time.Time\<close>), as a number; its zero value is 0.\<close>

type_synonym Time = int

text \<open>
  A Go \<open>error\<close> value: one handed back by a library call, carrying its message, or the one
  \<open>FetchNews\<close> builds from a status code.
\<close>

datatype error = LibError string | StatusError int

text \<open>What a call does: it panics, returns an error, or returns a value.\<close>

datatype 'a go_result = Panics | Error error | Value 'a

record Stock =
  Ticker :: string
  Gap :: float64
  OpeningPrice :: float64

record Position =
  EntryPrice :: float64
  Shares :: int
  TakeProfitPrice :: float64
  StopLossPrice :: float64
  Profit :: float64

record Article =
  PublishOn :: Time
  Headline :: string

text \<open>
  \<open>Selection\<close> embeds \<open>Position\<close>; the embedded struct is the field \<open>sPosition\<close>, and the
  ticker of a selection is \<open>sTicker\<close> (the field names of \<open>Stock\<close> are taken).
\<close>

record Selection =
  sTicker :: string
  sPosition :: Position
  Articles :: "Article list"

record attributes =
  publishOn :: Time
  title :: string

record seekingAlphaNews =
  Attributes :: attributes

record seekingAlphaResponse =
  Data :: "seekingAlphaNews list"

record request =
  Method :: string
  URL :: string
  Header :: "(string \<times> string) list"

record response =
  StatusCode :: int
  Body :: string

section \<open>The environment\<close>

text \<open>
  The library calls and the arithmetic of the machine, as parameters:
  \<^item> \<open>osOpen\<close>, \<open>readAll\<close>: \<open>os.Open\<close> and \<open>csv.Reader.ReadAll\<close> (the file is handed over as
    its path);
  \<^item> \<open>parseFloat\<close>: \<open>strconv.ParseFloat(_, 64)\<close>, \<open>None\<close> when it returns an error;
  \<^item> \<open>newRequest\<close>: \<open>http.NewRequest\<close> for a method and a URL;
  \<^item> \<open>doRequest\<close>: \<open>http.Client.Do\<close> of a client with no timeout; \<open>None\<close> when the call
    never returns;
  \<^item> \<open>jsonDecode\<close>: \<open>json.Decoder.Decode\<close> on a body: what is left in the target and the
    error returned, if any;
  \<^item> \<open>fadd\<close>, \<open>fsub\<close>, \<open>fmul\<close>, \<open>fdiv\<close>: the rounding operators of \<open>float64\<close>;
    \<open>fround\<close>: \<open>math.Round\<close>; \<open>toInt\<close>: the conversion \<open>int(_)\<close>; \<open>ofInt\<close>: the
    conversion \<open>float64(_)\<close>.
\<close>

record env =
  osOpen :: "string \<Rightarrow> error + string"
  readAll :: "string \<Rightarrow> error + string list list"
  parseFloat :: "string \<Rightarrow> float64 option"
  newRequest :: "string \<Rightarrow> string \<Rightarrow> error + request"
  doRequest :: "request \<Rightarrow> (error + response) option"
  jsonDecode :: "string \<Rightarrow> seekingAlphaResponse \<times> error option"
  fadd :: "float64 \<Rightarrow> float64 \<Rightarrow> float64"
  fsub :: "float64 \<Rightarrow> float64 \<Rightarrow> float64"
  fmul :: "float64 \<Rightarrow> float64 \<Rightarrow> float64"
  fdiv :: "float64 \<Rightarrow> float64 \<Rightarrow> float64"
  fround :: "float64 \<Rightarrow> float64"
  toInt :: "float64 \<Rightarrow> int"
  ofInt :: "int \<Rightarrow> float64"

section \<open>Load\<close>

text \<open>\<open>slices.Delete(s, i, j)\<close>: panics (\<open>None\<close>) unless \<open>s[i:j]\<close> is a valid slice.\<close>

definition slices_Delete :: "'a list \<Rightarrow> nat \<Rightarrow> nat \<Rightarrow> 'a list option" where
  "slices_Delete s i j =
     (if i \<le> j \<and> j \<le> length s then Some (take i s @ drop j s) else None)"

text \<open>An index expression \<open>row[i]\<close>: panics (\<open>None\<close>) out of range.\<close>

definition index :: "'a list \<Rightarrow> nat \<Rightarrow> 'a option" where
  "index row i = (if i < length row then Some (row ! i) else None)"

text \<open>
  The loop of \<open>Load\<close> over the rows, with the stocks appended so far. A field that does not
  parse ends the iteration (\<open>continue\<close>) before the next field is read.
\<close>

fun load_rows :: "env \<Rightarrow> string list list \<Rightarrow> Stock list \<Rightarrow> Stock list go_result" where
  "load_rows e [] stocks = Value stocks"
| "load_rows e (row # rows) stocks =
     (case index row 0 of
        None \<Rightarrow> Panics
      | Some ticker \<Rightarrow>
          (case index row 1 of
             None \<Rightarrow> Panics
           | Some f1 \<Rightarrow>
               (case parseFloat e f1 of
                  None \<Rightarrow> load_rows e rows stocks
                | Some gap \<Rightarrow>
                    (case index row 2 of
                       None \<Rightarrow> Panics
                     | Some f2 \<Rightarrow>
                         (case parseFloat e f2 of
                            None \<Rightarrow> load_rows e rows stocks
                          | Some openingPrice \<Rightarrow>
                              load_rows e rows
                                (stocks @ [\<lparr>Ticker = ticker, Gap = gap,
                                            OpeningPrice = openingPrice\<rparr>]))))))"

text \<open>
  \<open>Load\<close>. Printing the error and closing the file do not change what is returned and
  are left out.
\<close>

definition Load :: "env \<Rightarrow> string \<Rightarrow> Stock list go_result" where
  "Load e path =
     (case osOpen e path of
        Inl err \<Rightarrow> Error err
      | Inr f \<Rightarrow>
          (case readAll e f of
             Inl err \<Rightarrow> Error err
           | Inr rows \<Rightarrow>
               (case slices_Delete rows 0 1 of
                  None \<Rightarrow> Panics
                | Some rows' \<Rightarrow> load_rows e rows' [])))"

section \<open>Calculate\<close>

text \<open>
  The package variables. The literals \<open>.02\<close> and \<open>.8\<close> stand for the nearest \<open>float64\<close>;
  \<open>maxLossPerTrade\<close> is a product computed when the program starts.
\<close>

definition accountBalance :: float64 where
  "accountBalance = Fin 10000"

definition lossTolerance :: float64 where
  "lossTolerance = Fin (5764607523034235 / 288230376151711744)"

definition maxLossPerTrade :: "env \<Rightarrow> float64" where
  "maxLossPerTrade e = fmul e accountBalance lossTolerance"

definition profitPercent :: float64 where
  "profitPercent = Fin (3602879701896397 / 4503599627370496)"

text \<open>\<open>math.Round(x*100) / 100\<close>, as the source writes it four times.\<close>

definition round2 :: "env \<Rightarrow> float64 \<Rightarrow> float64" where
  "round2 e x = fdiv e (fround e (fmul e x (Fin 100))) (Fin 100)"

definition Calculate :: "env \<Rightarrow> float64 \<Rightarrow> float64 \<Rightarrow> Position" where
  "Calculate e gapPercent openingPrice =
     (let closingPrice = fdiv e openingPrice (fadd e (Fin 1) gapPercent);
          gapValue = fsub e closingPrice openingPrice;
          profitFromGap = fmul e profitPercent gapValue;
          stopLoss = fsub e openingPrice profitFromGap;
          takeProfit = fadd e openingPrice profitFromGap;
          shares = toInt e (fdiv e (maxLossPerTrade e) (fabs (fsub e stopLoss openingPrice)));
          profit = fmul e (fabs (fsub e openingPrice takeProfit)) (ofInt e shares);
          profit' = round2 e profit
      in \<lparr>EntryPrice = round2 e openingPrice,
          Shares = shares,
          TakeProfitPrice = round2 e takeProfit,
          StopLossPrice = round2 e stopLoss,
          Profit = round2 e profit'\<rparr>)"

section \<open>FetchNews\<close>

definition url :: string where
  "url = ''https://seeking-alpha.p.rapidapi.com/news/v2/list-by-symbol?size=5&id=''"

definition apiKeyHeader :: string where
  "apiKeyHeader = ''x-rapidapi-key''"

definition apiKey :: string where
  "apiKey = ''your-api-key-here''"

text \<open>The loop over \<open>res.Data\<close>, with the articles appended so far.\<close>

fun collect_articles :: "seekingAlphaNews list \<Rightarrow> Article list \<Rightarrow> Article list" where
  "collect_articles [] articles = articles"
| "collect_articles (item # items) articles =
     collect_articles items
       (articles @ [\<lparr>PublishOn = publishOn (Attributes item),
                     Headline = title (Attributes item)\<rparr>])"

text \<open>
  \<open>FetchNews\<close> returns an error (\<open>Inl\<close>) or the articles (\<open>Inr\<close>); it is \<open>None\<close> when the
  request never returns. The error of \<open>Decode\<close> is dropped, as in the source: only what
  the call left in \<open>res\<close> is used.
\<close>

definition FetchNews :: "env \<Rightarrow> string \<Rightarrow> (error + Article list) option" where
  "FetchNews e ticker =
     (case newRequest e ''GET'' (url @ ticker) of
        Inl err \<Rightarrow> Some (Inl err)
      | Inr req \<Rightarrow>
          (let req' = req\<lparr>Header := Header req @ [(apiKeyHeader, apiKey)]\<rparr> in
           case doRequest e req' of
             None \<Rightarrow> None
           | Some (Inl err) \<Rightarrow> Some (Inl err)
           | Some (Inr resp) \<Rightarrow>
               (if StatusCode resp < 200 \<or> StatusCode resp > 299
                then Some (Inl (StatusError (StatusCode resp)))
                else (let res = fst (jsonDecode e (Body resp))
                      in Some (Inr (collect_articles (Data res) []))))))"

section \<open>main\<close>

text \<open>\<open>slices.DeleteFunc(s, del)\<close>: the elements for which \<open>del\<close> is false, in order.\<close>

definition slices_DeleteFunc :: "'a list \<Rightarrow> ('a \<Rightarrow> bool) \<Rightarrow> 'a list" where
  "slices_DeleteFunc s del = filter (\<lambda>x. \<not> del x) s"

text \<open>The literal \<open>.1\<close>: the nearest \<open>float64\<close>.\<close>

definition minGap :: float64 where
  "minGap = Fin (3602879701896397 / 36028797018963968)"

definition unworthy :: "Stock \<Rightarrow> bool" where
  "unworthy s = flt (fabs (Gap s)) minGap"

text \<open>The zero values \<open>Position{}\<close> and \<open>Selection{}\<close>.\<close>

definition zero_Position :: Position where
  "zero_Position = \<lparr>EntryPrice = Fin 0, Shares = 0, TakeProfitPrice = Fin 0,
                     StopLossPrice = Fin 0, Profit = Fin 0\<rparr>"

definition zero_Selection :: Selection where
  "zero_Selection = \<lparr>sTicker = [], sPosition = zero_Position, Articles = []\<rparr>"

text \<open>
  The body of the goroutine up to its send: the selection it sends, or \<open>None\<close> when the
  fetch never returns.
\<close>

definition worker :: "env \<Rightarrow> Stock \<Rightarrow> Selection option" where
  "worker e s =
     (let position = Calculate e (Gap s) (OpeningPrice s) in
      case FetchNews e (Ticker s) of
        None \<Rightarrow> None
      | Some (Inl err) \<Rightarrow> Some zero_Selection
      | Some (Inr articles) \<Rightarrow>
          Some \<lparr>sTicker = Ticker s, sPosition = position, Articles = articles\<rparr>)"

text \<open>
  The concurrent part of \<open>main\<close> is a transition system. Its state holds
  \<^item> \<open>stocks\<close>: the filtered slice, whose length is the capacity of the channel and the
    number the collecting loop compares with;
  \<^item> \<open>todo\<close>: the stocks the spawning loop has not reached;
  \<^item> \<open>running\<close>: the stocks of the goroutines started that have not sent yet;
  \<^item> \<open>chan\<close>, \<open>closed\<close>: the buffer of \<open>selectionsChan\<close>, oldest first, and whether it is
    closed;
  \<^item> \<open>selections\<close>: the slice the collecting loop appends to;
  \<^item> \<open>phase\<close>: the program is running, has panicked, or has left the collecting loop and
    called \<open>Deliver\<close> with \<open>selections\<close>.
\<close>

datatype phase = Active | Delivered | Panicked

record state =
  stocks :: "Stock list"
  todo :: "Stock list"
  running :: "Stock list"
  chan :: "Selection list"
  closed :: bool
  selections :: "Selection list"
  phase :: phase

definition init :: "Stock list \<Rightarrow> state" where
  "init ss = \<lparr>stocks = ss, todo = ss, running = [], chan = [], closed = False,
              selections = [], phase = Active\<rparr>"

text \<open>
  A step is taken by the main goroutine or by the goroutine at an index of \<open>running\<close>;
  \<open>None\<close> means that the goroutine cannot move (it is blocked, or there is none).
  \<^item> Main, spawning: starts the goroutine of the next stock.
  \<^item> Main, collecting: receives the oldest selection and appends it; when the length
    reaches \<open>len(stocks)\<close> it closes the channel, which panics on a closed channel. On an
    empty buffer it leaves the loop if the channel is closed and blocks otherwise.
  \<^item> A worker whose fetch has returned sends its selection: a panic on a closed channel,
    blocked while the buffer is full.
\<close>

datatype action = Main | Worker nat

definition step :: "env \<Rightarrow> action \<Rightarrow> state \<Rightarrow> state option" where
  "step e a st =
     (if phase st \<noteq> Active then None
      else case a of
        Main \<Rightarrow>
          (case todo st of
             s # rest \<Rightarrow> Some (st\<lparr>todo := rest, running := running st @ [s]\<rparr>)
           | [] \<Rightarrow>
               (case chan st of
                  sel # rest \<Rightarrow>
                    (let sels = selections st @ [sel] in
                     if length sels = length (stocks st)
                     then (if closed st
                           then Some (st\<lparr>chan := rest, selections := sels, phase := Panicked\<rparr>)
                           else Some (st\<lparr>chan := rest, selections := sels, closed := True\<rparr>))
                     else Some (st\<lparr>chan := rest, selections := sels\<rparr>))
                | [] \<Rightarrow> (if closed st then Some (st\<lparr>phase := Delivered\<rparr>) else None)))
      | Worker i \<Rightarrow>
          (if i < length (running st)
           then (case worker e (running st ! i) of
                   None \<Rightarrow> None
                 | Some sel \<Rightarrow>
                     (if closed st then Some (st\<lparr>phase := Panicked\<rparr>)
                      else if length (chan st) < length (stocks st)
                      then Some (st\<lparr>running := take i (running st) @ drop (Suc i) (running st),
                                     chan := chan st @ [sel]\<rparr>)
                      else None))
           else None))"

text \<open>A run: the steps of a schedule one after the other; \<open>None\<close> if one cannot be taken.\<close>

fun exec :: "env \<Rightarrow> action list \<Rightarrow> state \<Rightarrow> state option" where
  "exec e [] st = Some st"
| "exec e (a # as) st = (case step e a st of None \<Rightarrow> None | Some st' \<Rightarrow> exec e as st')"

text \<open>\<open>main\<close> up to the start of the concurrent part: the state it starts in.\<close>

definition main_start :: "env \<Rightarrow> state go_result" where
  "main_start e =
     (case Load e ''./opg.csv'' of
        Panics \<Rightarrow> Panics
      | Error err \<Rightarrow> Error err
      | Value loaded \<Rightarrow> Value (init (slices_DeleteFunc loaded unworthy)))"

section \<open>Definitions used by the statements\<close>

text \<open>
  The stocks that the rows stand for, in the words of the specification: a row whose gap
  and opening price both parse gives a stock, any other row gives none.
\<close>

fun row_stock :: "env \<Rightarrow> string list \<Rightarrow> Stock option" where
  "row_stock e (ticker # f1 # f2 # _) =
     (case (parseFloat e f1, parseFloat e f2) of
        (Some gap, Some openingPrice) \<Rightarrow>
          Some \<lparr>Ticker = ticker, Gap = gap, OpeningPrice = openingPrice\<rparr>
      | _ \<Rightarrow> None)"
| "row_stock e _ = None"

definition parsed_stocks :: "env \<Rightarrow> string list list \<Rightarrow> Stock list" where
  "parsed_stocks e rows = List.map_filter (row_stock e) rows"

text \<open>
  Everything a state accounts for: the selections collected and buffered, and what the
  workers that have not sent yet will send.
\<close>

definition accounted :: "env \<Rightarrow> state \<Rightarrow> Selection option multiset" where
  "accounted e st =
     mset (map Some (selections st @ chan st)) + mset (map (worker e) (running st @ todo st))"

text \<open>The invariant of the runs that start from \<open>init ss\<close>.\<close>

definition inv :: "env \<Rightarrow> Stock list \<Rightarrow> state \<Rightarrow> bool" where
  "inv e ss st \<longleftrightarrow>
     stocks st = ss \<and>
     accounted e st = mset (map (worker e) ss) \<and>
     set (todo st) \<union> set (running st) \<subseteq> set ss \<and>
     (closed st \<longrightarrow> todo st = [] \<and> running st = [] \<and> chan st = []) \<and>
     (length (selections st) = length ss \<longrightarrow> closed st \<or> ss = []) \<and>
     phase st \<noteq> Panicked \<and>
     (phase st = Delivered \<longrightarrow> closed st)"

text \<open>A bound on the steps a state can still take.\<close>

definition mu :: "state \<Rightarrow> nat" where
  "mu st = 3 * length (todo st) + 2 * length (running st) + length (chan st)
           + (if phase st = Active then 1 else 0)"

text \<open>A state with a worker, started or not, whose fetch never returns.\<close>

definition hung :: "env \<Rightarrow> state \<Rightarrow> bool" where
  "hung e st \<longleftrightarrow> (\<exists>s\<in>set (todo st @ running st). worker e s = None)"

subsection \<open>An environment for examples\<close>

text \<open>
  The examples run in an environment that opens every file, reads the given rows, parses
  four literals, builds every request, and decodes one body. Its arithmetic is exact on
  finite values, without rounding: it stands in for the machine's only where an example
  needs some arithmetic, and no statement about the program depends on it.
\<close>

definition exact2 :: "(rat \<Rightarrow> rat \<Rightarrow> rat) \<Rightarrow> float64 \<Rightarrow> float64 \<Rightarrow> float64" where
  "exact2 f a b = (case (a, b) of (Fin x, Fin y) \<Rightarrow> Fin (f x y) | _ \<Rightarrow> NaN)"

definition test_parse :: "string \<Rightarrow> float64 option" where
  "test_parse s =
     (if s = ''0.25'' then Some (Fin (1 / 4))
      else if s = ''0.0625'' then Some (Fin (1 / 16))
      else if s = ''50'' then Some (Fin 50)
      else if s = ''NaN'' then Some NaN
      else None)"

definition test_item :: seekingAlphaNews where
  "test_item = \<lparr>Attributes = \<lparr>publishOn = 1700000000, title = ''Markets open higher''\<rparr>\<rparr>"

definition test_decode :: "string \<Rightarrow> seekingAlphaResponse \<times> error option" where
  "test_decode body =
     (if body = ''news'' then (\<lparr>Data = [test_item]\<rparr>, None)
      else (\<lparr>Data = []\<rparr>, Some (LibError ''invalid character'')))"

definition test_env :: "string list list \<Rightarrow> (request \<Rightarrow> (error + response) option) \<Rightarrow> env" where
  "test_env rows net =
     \<lparr>osOpen = Inr,
      readAll = (\<lambda>f. Inr rows),
      parseFloat = test_parse,
      newRequest = (\<lambda>m u. Inr \<lparr>Method = m, URL = u, Header = []\<rparr>),
      doRequest = net,
      jsonDecode = test_decode,
      fadd = exact2 (+),
      fsub = exact2 (-),
      fmul = exact2 (*),
      fdiv = exact2 (/),
      fround = (\<lambda>a. case a of Fin x \<Rightarrow> Fin (of_int (round x)) | _ \<Rightarrow> a),
      toInt = (\<lambda>a. case a of Fin x \<Rightarrow> (if 0 \<le> x then \<lfloor>x\<rfloor> else \<lceil>x\<rceil>) | _ \<Rightarrow> 0),
      ofInt = (\<lambda>n. Fin (of_int n))\<rparr>"

text \<open>Three networks: every request fails, no request returns, every request gets a body.\<close>

definition net_down :: "request \<Rightarrow> (error + response) option" where
  "net_down req = Some (Inl (LibError ''connection refused''))"

definition net_silent :: "request \<Rightarrow> (error + response) option" where
  "net_silent req = None"

definition net_reply :: "string \<Rightarrow> request \<Rightarrow> (error + response) option" where
  "net_reply body req = Some (Inr \<lparr>StatusCode = 200, Body = body\<rparr>)"

definition stock_A :: Stock where
  "stock_A = \<lparr>Ticker = ''AAA'', Gap = Fin (1 / 4), OpeningPrice = Fin 50\<rparr>"

definition stock_B :: Stock where
  "stock_B = \<lparr>Ticker = ''BBB'', Gap = Fin (1 / 4), OpeningPrice = Fin 50\<rparr>"

definition stock_N :: Stock where
  "stock_N = \<lparr>Ticker = ''NNN'', Gap = NaN, OpeningPrice = Fin 50\<rparr>"

definition stock_L :: Stock where
  "stock_L = \<lparr>Ticker = ''LOW'', Gap = Fin (1 / 16), OpeningPrice = Fin 50\<rparr>"

definition header_row :: "string list" where
  "header_row = [''Ticker'', ''Gap'', ''OpeningPrice'']"

text \<open>The state in which a run over two stocks ends when both fetches have failed.\<close>

definition both_failed :: state where
  "both_failed = \<lparr>stocks = [stock_A, stock_B], todo = [], running = [], chan = [],
                   closed = True, selections = [zero_Selection, zero_Selection],
                   phase = Delivered\<rparr>"

text \<open>
  The environment in which every request is answered with the body that decodes to one
  item, the record a worker sends there, and the state in which a run ends.
\<close>

definition news_env :: env where
  "news_env = test_env [] (net_reply ''news'')"

definition news_selection :: "Stock \<Rightarrow> Selection" where
  "news_selection s =
     \<lparr>sTicker = Ticker s,
      sPosition = Calculate news_env (Gap s) (OpeningPrice s),
      Articles = [\<lparr>PublishOn = 1700000000, Headline = ''Markets open higher''\<rparr>]\<rparr>"

definition delivered :: "Stock list \<Rightarrow> Selection list \<Rightarrow> state" where
  "delivered ss sels = \<lparr>stocks = ss, todo = [], running = [], chan = [], closed = True,
                         selections = sels, phase = Delivered\<rparr>"

text \<open>
  The environment in which only the request for \<open>AAA\<close> is answered and every other one
  fails, and the record the worker of an answered stock sends there.
\<close>

definition net_only_A :: "request \<Rightarrow> (error + response) option" where
  "net_only_A req =
     (if URL req = url @ ''AAA'' then Some (Inr \<lparr>StatusCode = 200, Body = ''news''\<rparr>)
      else Some (Inl (LibError ''connection refused'')))"

definition mixed_env :: env where
  "mixed_env = test_env [] net_only_A"

definition mixed_selection :: "Stock \<Rightarrow> Selection" where
  "mixed_selection s =
     \<lparr>sTicker = Ticker s,
      sPosition = Calculate mixed_env (Gap s) (OpeningPrice s),
      Articles = [\<lparr>PublishOn = 1700000000, Headline = ''Markets open higher''\<rparr>]\<rparr>"

definition full_run :: "action list" where
  "full_run = [Main, Main, Worker 0, Worker 0, Main, Main, Main]"

definition swapped_run :: "action list" where
  "swapped_run = [Main, Main, Worker 1, Worker 0, Main, Main, Main]"

section \<open>Properties of Load\<close>

lemmas test_defs = test_env_def net_down_def net_silent_def net_reply_def test_decode_def
  test_parse_def test_item_def stock_A_def stock_B_def stock_N_def stock_L_def exact2_def
  header_row_def

lemma load_rows_parsed:
  "\<forall>r\<in>set rows. 3 \<le> length r \<Longrightarrow>
   load_rows e rows acc = Value (acc @ parsed_stocks e rows)"
proof (induction rows arbitrary: acc)
  case Nil
  show ?case by (simp add: parsed_stocks_def)
next
  case (Cons row rows)
  from Cons.prems obtain t f1 f2 rest where row: "row = t # f1 # f2 # rest"
    by (cases row; cases "tl row"; cases "tl (tl row)") auto
  from Cons.prems have rest: "\<forall>r\<in>set rows. 3 \<le> length r" by simp
  show ?case
    using Cons.IH [OF rest]
    by (simp add: row index_def parsed_stocks_def split: option.splits)
qed

lemma row_stock_None_iff:
  "3 \<le> length r \<Longrightarrow>
   row_stock e r = None \<longleftrightarrow> parseFloat e (r ! 1) = None \<or> parseFloat e (r ! 2) = None"
proof -
  assume "3 \<le> length r"
  then obtain t f1 f2 rest where r: "r = t # f1 # f2 # rest"
    by (cases r; cases "tl r"; cases "tl (tl r)") auto
  show ?thesis by (auto simp: r split: option.splits)
qed

text \<open>
  When the file opens and \<open>ReadAll\<close> returns a header row followed by data rows that
  each have the three fields, \<open>Load\<close> returns, with no error, exactly the stocks of the
  data rows whose gap and opening price both parse, in the order of the file; a data row
  with a field that does not parse gives no stock and no error.
\<close>

lemma Load_wellformed_file:
  assumes "osOpen e path = Inr f"
    and "readAll e f = Inr (header # rows)"
    and "\<forall>r\<in>set rows. 3 \<le> length r"
  shows "Load e path = Value (parsed_stocks e rows) \<and>
         (\<forall>r\<in>set rows. row_stock e r = None \<longleftrightarrow>
            parseFloat e (r ! 1) = None \<or> parseFloat e (r ! 2) = None)"
proof -
  have "load_rows e rows [] = Value (parsed_stocks e rows)"
    using load_rows_parsed [OF assms(3), of e "[]"] by simp
  then have "Load e path = Value (parsed_stocks e rows)"
    using assms(1,2) by (simp add: Load_def slices_Delete_def)
  moreover have "\<forall>r\<in>set rows. row_stock e r = None \<longleftrightarrow>
            parseFloat e (r ! 1) = None \<or> parseFloat e (r ! 2) = None"
  proof
    fix r
    assume "r \<in> set rows"
    with assms(3) have "3 \<le> length r" by (rule bspec)
    then show "row_stock e r = None \<longleftrightarrow>
            parseFloat e (r ! 1) = None \<or> parseFloat e (r ! 2) = None"
      by (rule row_stock_None_iff)
  qed
  ultimately show ?thesis by (rule conjI)
qed

lemma Load_wellformed_file_example:
  "osOpen (test_env [header_row, [''AAA'', ''0.25'', ''50''], [''BAD'', ''n/a'', ''50''],
                     [''BBB'', ''0.25'', ''50''], [''UGH'', ''0.25'', ''fifty'']] net_down)
     ''./opg.csv'' = Inr ''./opg.csv'' \<and>
   Load (test_env [header_row, [''AAA'', ''0.25'', ''50''], [''BAD'', ''n/a'', ''50''],
                   [''BBB'', ''0.25'', ''50''], [''UGH'', ''0.25'', ''fifty'']] net_down)
     ''./opg.csv'' = Value [stock_A, stock_B]"
proof -
  let ?rows = "[[''AAA'', ''0.25'', ''50''], [''BAD'', ''n/a'', ''50''],
                [''BBB'', ''0.25'', ''50''], [''UGH'', ''0.25'', ''fifty'']]"
  let ?e = "test_env (header_row # ?rows) net_down"
  have h1: "osOpen ?e ''./opg.csv'' = Inr ''./opg.csv''" by (simp add: test_env_def)
  have h2: "readAll ?e ''./opg.csv'' = Inr (header_row # ?rows)" by (simp add: test_env_def)
  have h3: "\<forall>r\<in>set ?rows. 3 \<le> length r" by simp
  have v: "parsed_stocks ?e ?rows = [stock_A, stock_B]"
    by (simp add: parsed_stocks_def test_defs)
  from Load_wellformed_file [OF h1 h2 h3] h1 v show ?thesis by simp
qed

text \<open>
  C8. The code departs from the claim on files that are read with no error but are
  shorter than the loop expects: with no row at all the deletion of the header is out of
  range, and with a row of a single field the index of the gap is; \<open>Load\<close> then panics
  instead of returning the stocks of the rows that parse.
\<close>

theorem Load_panics_on_short_input:
  "readAll (test_env [[''Ticker''], [''AAA'']] net_down) ''./opg.csv''
     = Inr [[''Ticker''], [''AAA'']] \<and>
   Load (test_env [[''Ticker''], [''AAA'']] net_down) ''./opg.csv'' = Panics \<and>
   readAll (test_env [] net_down) ''./opg.csv'' = Inr [] \<and>
   Load (test_env [] net_down) ''./opg.csv'' = Panics"
  by (simp add: Load_def slices_Delete_def index_def test_env_def)

text \<open>
  C10. A file that opens and from which \<open>ReadAll\<close> returns no row at all (an empty file)
  makes \<open>Load\<close> panic: the header is deleted from an empty slice.
\<close>

theorem Load_empty_file_panics:
  assumes "osOpen e path = Inr f" and "readAll e f = Inr []"
  shows "Load e path = Panics"
  using assms by (simp add: Load_def slices_Delete_def)

theorem Load_empty_file_panics_witness:
  "osOpen (test_env [] net_down) ''./opg.csv'' = Inr ''./opg.csv'' \<and>
   readAll (test_env [] net_down) ''./opg.csv'' = Inr [] \<and>
   Load (test_env [] net_down) ''./opg.csv'' = Panics"
proof -
  have h1: "osOpen (test_env [] net_down) ''./opg.csv'' = Inr ''./opg.csv''"
    by (simp add: test_env_def)
  have h2: "readAll (test_env [] net_down) ''./opg.csv'' = Inr []"
    by (simp add: test_env_def)
  from Load_empty_file_panics [OF h1 h2] h1 h2 show ?thesis by simp
qed


section \<open>The runs of the pipeline\<close>

lemma nth_mset_split:
  "i < length xs \<Longrightarrow> mset xs = {#xs ! i#} + mset (take i xs @ drop (Suc i) xs)"
proof -
  assume "i < length xs"
  then have "xs = take i xs @ xs ! i # drop (Suc i) xs" by (rule id_take_nth_drop)
  then have "mset xs = mset (take i xs @ xs ! i # drop (Suc i) xs)" by simp
  then show ?thesis by simp
qed

lemma set_remove_nth:
  assumes "i < length xs" "x \<in> set xs" "x \<noteq> xs ! i"
  shows "x \<in> set (take i xs @ drop (Suc i) xs)"
proof -
  from assms(1) have "xs = take i xs @ xs ! i # drop (Suc i) xs" by (rule id_take_nth_drop)
  then have "set xs = set (take i xs @ xs ! i # drop (Suc i) xs)" by simp
  then have "set xs = set (take i xs) \<union> {xs ! i} \<union> set (drop (Suc i) xs)"
    by simp
  with assms(2,3) show ?thesis by auto
qed

lemma set_remove_nth_subset: "set (take i xs @ drop (Suc i) xs) \<subseteq> set xs"
  by (auto dest: in_set_takeD in_set_dropD)

lemma mset_map_Some_eq:
  assumes "mset (map Some xs) = mset (map Some ys)"
  shows "mset xs = mset ys"
proof -
  from assms have "image_mset the (mset (map Some xs)) = image_mset the (mset (map Some ys))"
    by simp
  then show ?thesis by (simp add: multiset.map_comp comp_def)
qed

lemma accounted_size:
  assumes "accounted e st = mset (map (worker e) ss)"
  shows "length (selections st) + length (chan st) + length (running st) + length (todo st)
         = length ss"
proof -
  from assms have "size (accounted e st) = size (mset (map (worker e) ss))" by simp
  then show ?thesis by (simp add: accounted_def)
qed

lemma inv_size:
  assumes "inv e ss st"
  shows "length (selections st) + length (chan st) + length (running st) + length (todo st)
         = length ss"
proof -
  from assms have "accounted e st = mset (map (worker e) ss)"
    unfolding inv_def by blast
  then show ?thesis by (rule accounted_size)
qed

lemma inv_init: "inv e ss (init ss)"
  by (simp add: inv_def init_def accounted_def)

lemma inv_Main:
  assumes "inv e ss st" and "step e Main st = Some st'"
  shows "inv e ss st'"
proof -
  note sz = inv_size [OF assms(1)]
  show ?thesis
  proof (cases "todo st")
    case (Cons s rest)
    with assms show ?thesis
      by (auto simp: inv_def step_def accounted_def split: if_splits)
  next
    case Nil
    note todo = Nil
    show ?thesis
    proof (cases "chan st")
      case Nil
      with todo assms show ?thesis
        by (auto simp: inv_def step_def accounted_def split: if_splits)
    next
      case (Cons sel rest)
      from assms(1) Cons have nc: "\<not> closed st" by (auto simp: inv_def)
      from sz Cons have sz':
        "Suc (length (selections st)) + length rest + length (running st) \<le> length ss"
        by simp
      have full: "rest = [] \<and> running st = []" if "Suc (length (selections st)) = length ss"
      proof -
        from sz' that have "length rest = 0 \<and> length (running st) = 0" by arith
        then show ?thesis by simp
      qed
      from sz Cons have ne: "ss \<noteq> []" by auto
      from assms todo Cons nc full ne show ?thesis
        by (auto simp: inv_def step_def accounted_def Let_def split: if_splits)
    qed
  qed
qed

lemma inv_Worker:
  assumes "inv e ss st" and "step e (Worker i) st = Some st'"
  shows "inv e ss st'"
proof -
  from assms(2) have act: "phase st = Active" and i: "i < length (running st)"
    by (auto simp: step_def split: if_splits)
  from assms(1) i have nc: "\<not> closed st" by (auto simp: inv_def)
  from assms(2) act i nc obtain sel where sel: "worker e (running st ! i) = Some sel"
    and st': "st' = st\<lparr>running := take i (running st) @ drop (Suc i) (running st),
                        chan := chan st @ [sel]\<rparr>"
    by (auto simp: step_def split: if_splits option.splits)
  have "mset (map (worker e) (running st)) =
        {#Some sel#} + mset (map (worker e) (take i (running st) @ drop (Suc i) (running st)))"
    using nth_mset_split [of i "map (worker e) (running st)"] i sel
    by (simp add: take_map drop_map)
  then have acc: "accounted e st' = accounted e st"
    by (simp add: accounted_def st')
  have sub: "set (running st') \<subseteq> set (running st)"
    using set_remove_nth_subset [of i "running st"] by (simp add: st')
  from assms(1) acc sub nc act show ?thesis
    by (auto simp: inv_def st')
qed

lemma inv_step: "inv e ss st \<Longrightarrow> step e a st = Some st' \<Longrightarrow> inv e ss st'"
  by (cases a) (auto intro: inv_Main inv_Worker)

lemma inv_exec_from: "inv e ss st \<Longrightarrow> exec e sched st = Some st' \<Longrightarrow> inv e ss st'"
  by (induction sched arbitrary: st) (auto split: option.splits dest: inv_step)

lemma inv_exec: "exec e sched (init ss) = Some st \<Longrightarrow> inv e ss st"
  using inv_exec_from inv_init by blast

lemma mu_step: "step e a st = Some st' \<Longrightarrow> mu st' < mu st"
  by (cases a) (auto simp: step_def mu_def Let_def split: if_splits list.splits option.splits)

lemma mu_exec: "exec e sched st = Some st' \<Longrightarrow> mu st' + length sched \<le> mu st"
proof (induction sched arbitrary: st)
  case Nil
  then show ?case by simp
next
  case (Cons a as)
  then obtain st1 where s1: "step e a st = Some st1" and r: "exec e as st1 = Some st'"
    by (auto split: option.splits)
  from Cons.IH [OF r] mu_step [OF s1] show ?case by simp
qed

lemma run_length: "exec e sched (init ss) = Some st \<Longrightarrow> length sched \<le> 3 * length ss + 1"
proof -
  assume "exec e sched (init ss) = Some st"
  then have "mu st + length sched \<le> mu (init ss)" by (rule mu_exec)
  then show ?thesis by (simp add: mu_def init_def)
qed

lemma worker_None: "worker e s = None \<longleftrightarrow> FetchNews e (Ticker s) = None"
  by (auto simp: worker_def Let_def split: option.splits sum.splits)

lemma worker_failed: "FetchNews e (Ticker s) = Some (Inl err) \<Longrightarrow> worker e s = Some zero_Selection"
  by (simp add: worker_def)

lemma progress:
  assumes "inv e ss st" and "ss \<noteq> []" and "\<forall>s\<in>set ss. FetchNews e (Ticker s) \<noteq> None"
    and "phase st \<noteq> Delivered"
  shows "\<exists>a st'. step e a st = Some st'"
proof -
  note sz = inv_size [OF assms(1)]
  from assms(1) have stocks: "stocks st = ss" unfolding inv_def by blast
  from assms(1,4) have act: "phase st = Active"
    by (cases "phase st") (auto simp: inv_def)
  show ?thesis
  proof (cases "todo st = [] \<and> chan st = [] \<and> \<not> closed st")
    case False
    then have "step e Main st \<noteq> None"
      using act by (auto simp: step_def Let_def split: list.splits)
    then show ?thesis by auto
  next
    case True
    with assms(1,2) have "length (selections st) \<noteq> length ss" by (auto simp: inv_def)
    moreover from True have "length (todo st) = 0" "length (chan st) = 0" by simp_all
    ultimately have r: "0 < length (running st)" using sz by arith
    with sz stocks have room: "length (chan st) < length (stocks st)" by arith
    from r have "running st ! 0 \<in> set ss" using assms(1) by (auto simp: inv_def)
    with assms(3) obtain sel where "worker e (running st ! 0) = Some sel"
      using worker_None by (cases "worker e (running st ! 0)") auto
    with room have "step e (Worker 0) st \<noteq> None"
      using act r True by (simp add: step_def)
    then show ?thesis by auto
  qed
qed

lemma delivered_all:
  assumes "inv e ss st" and "phase st = Delivered"
  shows "length (selections st) = length ss \<and>
         mset (map Some (selections st)) = mset (map (worker e) ss)"
proof -
  from assms have e: "todo st = []" "running st = []" "chan st = []"
    by (auto simp: inv_def)
  from inv_size [OF assms(1)] e have "length (selections st) = length ss" by simp
  moreover from assms(1) e have "mset (map Some (selections st)) = mset (map (worker e) ss)"
    by (simp add: inv_def accounted_def)
  ultimately show ?thesis by simp
qed

lemma hung_step: "hung e st \<Longrightarrow> step e a st = Some st' \<Longrightarrow> hung e st'"
proof (cases a)
  case Main
  assume "hung e st" "step e a st = Some st'"
  with Main show ?thesis
    by (auto simp: hung_def step_def Let_def split: if_splits list.splits)
next
  case (Worker i)
  assume h: "hung e st" and s: "step e a st = Some st'"
  from h obtain x where x: "x \<in> set (todo st @ running st)" "worker e x = None"
    by (auto simp: hung_def)
  from s Worker have i: "i < length (running st)"
    by (auto simp: step_def split: if_splits)
  from s Worker i obtain sel where sel: "worker e (running st ! i) = Some sel"
    by (auto simp: step_def split: if_splits option.splits)
  from s Worker i sel have t: "todo st' = todo st"
    and r: "running st' = running st \<or>
            running st' = take i (running st) @ drop (Suc i) (running st)"
    by (auto simp: step_def split: if_splits)
  from x sel have "x \<noteq> running st ! i" by auto
  with x i have "x \<in> set (todo st) \<or> x \<in> set (take i (running st) @ drop (Suc i) (running st))"
    using set_remove_nth [of i "running st" x] by auto
  with x t r show ?thesis unfolding hung_def by auto
qed

lemma hung_exec: "hung e st \<Longrightarrow> exec e sched st = Some st' \<Longrightarrow> hung e st'"
  by (induction sched arbitrary: st) (auto split: option.splits dest: hung_step)

lemma hung_never_delivered:
  assumes "s \<in> set ss" and "FetchNews e (Ticker s) = None"
    and "exec e sched (init ss) = Some st"
  shows "phase st \<noteq> Delivered"
proof
  assume d: "phase st = Delivered"
  from assms(1,2) have "hung e (init ss)"
    by (auto simp: hung_def init_def worker_None)
  with assms(3) have "hung e st" using hung_exec by blast
  moreover from inv_exec [OF assms(3)] d have "todo st = []" "running st = []"
    by (auto simp: inv_def)
  ultimately show False by (simp add: hung_def)
qed

lemma spawn_all:
  "phase st = Active \<Longrightarrow>
   exec e (replicate (length (todo st)) Main) st
     = Some (st\<lparr>todo := [], running := running st @ todo st\<rparr>)"
proof (induction "todo st" arbitrary: st)
  case Nil
  then show ?case by simp
next
  case (Cons s rest)
  let ?st1 = "st\<lparr>todo := rest, running := running st @ [s]\<rparr>"
  from Cons.hyps(2) have t: "todo st = s # rest" by simp
  with Cons.prems have s1: "step e Main st = Some ?st1"
    by (simp add: step_def)
  have "rest = todo ?st1" by simp
  moreover from Cons.prems have "phase ?st1 = Active" by simp
  ultimately have "exec e (replicate (length (todo ?st1)) Main) ?st1
     = Some (?st1\<lparr>todo := [], running := running ?st1 @ todo ?st1\<rparr>)"
    by (rule Cons.hyps(1))
  with s1 t show ?case by simp
qed

lemma running_bounded: "exec e sched (init ss) = Some st \<Longrightarrow> length (running st) \<le> length ss"
proof -
  assume "exec e sched (init ss) = Some st"
  then have "inv e ss st" by (rule inv_exec)
  from inv_size [OF this] show ?thesis by simp
qed


section \<open>The pipeline: what a run hands to Deliver\<close>

lemma fetch_down:
  "FetchNews (test_env rows net_down) t = Some (Inl (LibError ''connection refused''))"
  by (simp add: FetchNews_def test_env_def net_down_def)

lemma fetch_silent: "FetchNews (test_env rows net_silent) t = None"
  by (simp add: FetchNews_def test_env_def net_silent_def)

lemma worker_down: "worker (test_env rows net_down) s = Some zero_Selection"
  by (simp add: worker_def fetch_down)

lemma full_run_down:
  "exec (test_env [] net_down) full_run (init [stock_A, stock_B]) = Some both_failed"
  by (simp add: full_run_def both_failed_def step_def init_def worker_down)

text \<open>
  With no stock left after filtering nothing can move: no goroutine is started, and the
  main goroutine waits on a channel that nobody sends on or closes.
\<close>

lemma empty_batch_blocks: "step e a (init []) = None \<and> phase (init []) = Active"
  by (cases a) (simp_all add: step_def init_def)

text \<open>
  C1, as stated, fails: two stocks whose fetches both fail end as two records with the
  same, empty, identifier, so the identifiers of the result are not distinct and neither
  stock can be found in it.
\<close>

theorem failed_fetches_duplicate_identifiers:
  "map_option (\<lambda>st. (phase st, map sTicker (selections st), distinct (map sTicker (selections st))))
     (exec (test_env [] net_down) full_run (init [stock_A, stock_B]))
   = Some (Delivered, ['''', ''''], False)"
  by (simp add: full_run_down both_failed_def zero_Selection_def)

text \<open>
  What a worker sends when its fetch returns: the zero value after an error, and after a
  success the ticker of its stock, the position calculated from its gap and opening
  price, and the articles fetched.
\<close>

lemma worker_sends:
  assumes "FetchNews e (Ticker s) \<noteq> None"
  shows "worker e s =
           Some (case FetchNews e (Ticker s) of
                   Some (Inr articles) \<Rightarrow>
                     \<lparr>sTicker = Ticker s,
                      sPosition = Calculate e (Gap s) (OpeningPrice s),
                      Articles = articles\<rparr>
                 | _ \<Rightarrow> zero_Selection)"
  using assms by (simp add: worker_def Let_def split: option.splits sum.splits)

lemma fetch_mixed:
  "FetchNews mixed_env (Ticker stock_A)
     = Some (Inr [\<lparr>PublishOn = 1700000000, Headline = ''Markets open higher''\<rparr>])"
  "FetchNews mixed_env (Ticker stock_B) = Some (Inl (LibError ''connection refused''))"
  by (simp_all add: FetchNews_def mixed_env_def test_env_def net_only_A_def test_decode_def
      test_item_def stock_A_def stock_B_def)

lemma worker_mixed:
  "worker mixed_env stock_A = Some (mixed_selection stock_A)"
  "worker mixed_env stock_B = Some zero_Selection"
  by (simp_all add: worker_def fetch_mixed mixed_selection_def)

lemma full_run_mixed:
  "exec mixed_env full_run (init [stock_A, stock_B])
     = Some (delivered [stock_A, stock_B] [mixed_selection stock_A, zero_Selection])"
  by (simp add: full_run_def delivered_def step_def init_def worker_mixed)

text \<open>
  C1, amended. For a batch of at least one stock whose fetches all return, with or
  without an error, every run is free of panics and at most \<open>3 * N + 1\<close> steps long, a run
  that has not reached \<open>Deliver\<close> can always take a further step, and a run that has
  reached it hands over exactly \<open>N\<close> records: the records the \<open>N\<close> workers send, each once,
  in some order. The record of a stock is the zero value when its fetch failed; when it
  succeeded it holds the ticker of the stock, the position calculated for it and the
  articles fetched.
\<close>

theorem pipeline_collects_every_worker_result:
  assumes "ss \<noteq> []"
    and "\<forall>s\<in>set ss. FetchNews e (Ticker s) \<noteq> None"
    and "exec e sched (init ss) = Some st"
  shows "phase st \<noteq> Panicked \<and>
         length sched \<le> 3 * length ss + 1 \<and>
         (phase st \<noteq> Delivered \<longrightarrow> (\<exists>a st'. step e a st = Some st')) \<and>
         (phase st = Delivered \<longrightarrow>
            length (selections st) = length ss \<and>
            mset (map Some (selections st)) = mset (map (worker e) ss) \<and>
            mset (selections st) =
              mset (map (\<lambda>s. case FetchNews e (Ticker s) of
                                Some (Inr articles) \<Rightarrow>
                                  \<lparr>sTicker = Ticker s,
                                   sPosition = Calculate e (Gap s) (OpeningPrice s),
                                   Articles = articles\<rparr>
                              | _ \<Rightarrow> zero_Selection) ss))"
proof -
  let ?sent = "\<lambda>s. case FetchNews e (Ticker s) of
                      Some (Inr articles) \<Rightarrow>
                        \<lparr>sTicker = Ticker s,
                         sPosition = Calculate e (Gap s) (OpeningPrice s),
                         Articles = articles\<rparr>
                    | _ \<Rightarrow> zero_Selection"
  note i = inv_exec [OF assms(3)]
  from i have "phase st \<noteq> Panicked" unfolding inv_def by blast
  moreover have "length sched \<le> 3 * length ss + 1"
    using assms(3) by (rule run_length)
  moreover have "phase st \<noteq> Delivered \<longrightarrow> (\<exists>a st'. step e a st = Some st')"
    using progress [OF i assms(1,2)] by blast
  moreover have "phase st = Delivered \<longrightarrow>
            length (selections st) = length ss \<and>
            mset (map Some (selections st)) = mset (map (worker e) ss) \<and>
            mset (selections st) = mset (map ?sent ss)"
  proof
    assume d: "phase st = Delivered"
    from delivered_all [OF i d] have l: "length (selections st) = length ss"
      and m: "mset (map Some (selections st)) = mset (map (worker e) ss)" by blast+
    have "map (worker e) ss = map (\<lambda>s. Some (?sent s)) ss"
    proof (rule map_cong [OF refl])
      fix s
      assume "s \<in> set ss"
      with assms(2) have "FetchNews e (Ticker s) \<noteq> None" by blast
      then show "worker e s = Some (?sent s)" by (rule worker_sends)
    qed
    then have "map (worker e) ss = map Some (map ?sent ss)" by simp
    with m have "mset (map Some (selections st)) = mset (map Some (map ?sent ss))" by simp
    then have "mset (selections st) = mset (map ?sent ss)" by (rule mset_map_Some_eq)
    with l m show "length (selections st) = length ss \<and>
            mset (map Some (selections st)) = mset (map (worker e) ss) \<and>
            mset (selections st) = mset (map ?sent ss)" by blast
  qed
  ultimately show ?thesis by blast
qed

theorem pipeline_collects_every_worker_result_witness:
  "[stock_A, stock_B] \<noteq> [] \<and>
   FetchNews mixed_env (Ticker stock_A) \<noteq> None \<and>
   FetchNews mixed_env (Ticker stock_B) \<noteq> None \<and>
   exec mixed_env full_run (init [stock_A, stock_B])
     = Some (delivered [stock_A, stock_B] [mixed_selection stock_A, zero_Selection]) \<and>
   phase (delivered [stock_A, stock_B] [mixed_selection stock_A, zero_Selection]) = Delivered \<and>
   length (selections (delivered [stock_A, stock_B] [mixed_selection stock_A, zero_Selection]))
     = length [stock_A, stock_B] \<and>
   mset (selections (delivered [stock_A, stock_B] [mixed_selection stock_A, zero_Selection]))
     = mset [\<lparr>sTicker = ''AAA'',
               sPosition = Calculate mixed_env (Fin (1 / 4)) (Fin 50),
               Articles = [\<lparr>PublishOn = 1700000000, Headline = ''Markets open higher''\<rparr>]\<rparr>,
             zero_Selection]"
proof -
  let ?st = "delivered [stock_A, stock_B] [mixed_selection stock_A, zero_Selection]"
  have h1: "[stock_A, stock_B] \<noteq> []" by simp
  have f: "FetchNews mixed_env (Ticker stock_A) \<noteq> None"
    "FetchNews mixed_env (Ticker stock_B) \<noteq> None"
    by (simp_all add: fetch_mixed)
  then have h2: "\<forall>s\<in>set [stock_A, stock_B]. FetchNews mixed_env (Ticker s) \<noteq> None"
    by simp
  note h3 = full_run_mixed
  have d: "phase ?st = Delivered" by (simp add: delivered_def)
  from pipeline_collects_every_worker_result [OF h1 h2 h3] d
  have l: "length (selections ?st) = length [stock_A, stock_B]"
    and m: "mset (selections ?st) =
              mset (map (\<lambda>s. case FetchNews mixed_env (Ticker s) of
                                Some (Inr articles) \<Rightarrow>
                                  \<lparr>sTicker = Ticker s,
                                   sPosition = Calculate mixed_env (Gap s) (OpeningPrice s),
                                   Articles = articles\<rparr>
                              | _ \<Rightarrow> zero_Selection) [stock_A, stock_B])"
    by blast+
  have t: "Ticker stock_A = ''AAA''" "Gap stock_A = Fin (1 / 4)" "OpeningPrice stock_A = Fin 50"
    by (simp_all add: stock_A_def)
  from m have "mset (selections ?st)
     = mset [\<lparr>sTicker = Ticker stock_A,
               sPosition = Calculate mixed_env (Gap stock_A) (OpeningPrice stock_A),
               Articles = [\<lparr>PublishOn = 1700000000, Headline = ''Markets open higher''\<rparr>]\<rparr>,
             zero_Selection]"
    by (simp add: fetch_mixed)
  then have "mset (selections ?st)
     = mset [\<lparr>sTicker = ''AAA'',
               sPosition = Calculate mixed_env (Fin (1 / 4)) (Fin 50),
               Articles = [\<lparr>PublishOn = 1700000000, Headline = ''Markets open higher''\<rparr>]\<rparr>,
             zero_Selection]"
    by (simp add: t)
  with h1 f h3 d l show ?thesis by blast
qed

text \<open>
  C2, as stated, fails: the record a worker sends after a failed fetch is the zero value,
  which does not carry the ticker of its stock.
\<close>

theorem failed_fetch_record_is_untagged:
  "worker (test_env [] net_down) stock_A = Some zero_Selection \<and>
   sTicker zero_Selection \<noteq> Ticker stock_A"
  by (simp add: worker_down zero_Selection_def stock_A_def)

text \<open>
  C2, amended. A worker whose fetch fails sends the zero value of \<open>Selection\<close>: an empty
  ticker, the zero position and no article; nothing in the record marks the failure.
  The run goes on without a panic, and when the fetch fails for every stock, every record
  collected is that zero value.
\<close>

theorem failed_fetch_sends_zero_selection:
  assumes "s \<in> set ss"
    and "FetchNews e (Ticker s) = Some (Inl err)"
    and "exec e sched (init ss) = Some st"
  shows "worker e s = Some zero_Selection \<and>
         zero_Selection = \<lparr>sTicker = [], sPosition = zero_Position, Articles = []\<rparr> \<and>
         phase st \<noteq> Panicked \<and>
         ((\<forall>s'\<in>set ss. \<exists>err'. FetchNews e (Ticker s') = Some (Inl err')) \<longrightarrow>
            (\<forall>x\<in>set (selections st). x = zero_Selection))"
proof -
  note i = inv_exec [OF assms(3)]
  have w: "worker e s = Some zero_Selection"
    using assms(2) by (rule worker_failed)
  have p: "phase st \<noteq> Panicked" using i unfolding inv_def by blast
  have a: "\<forall>x\<in>set (selections st). x = zero_Selection"
    if all: "\<forall>s'\<in>set ss. \<exists>err'. FetchNews e (Ticker s') = Some (Inl err')"
  proof
    fix x
    assume "x \<in> set (selections st)"
    then have "Some x \<in># accounted e st" by (auto simp: accounted_def)
    with i have "Some x \<in># mset (map (worker e) ss)" by (simp add: inv_def)
    then obtain s' where s': "s' \<in> set ss" "worker e s' = Some x" by auto
    from all s'(1) obtain err' where "FetchNews e (Ticker s') = Some (Inl err')" by blast
    then have "worker e s' = Some zero_Selection" by (rule worker_failed)
    with s'(2) show "x = zero_Selection" by simp
  qed
  from w p a show ?thesis by (simp add: zero_Selection_def)
qed

theorem failed_fetch_sends_zero_selection_witness:
  "stock_A \<in> set [stock_A, stock_B] \<and>
   FetchNews (test_env [] net_down) (Ticker stock_A) = Some (Inl (LibError ''connection refused'')) \<and>
   exec (test_env [] net_down) full_run (init [stock_A, stock_B]) = Some both_failed \<and>
   (\<exists>err'. FetchNews (test_env [] net_down) (Ticker stock_B) = Some (Inl err')) \<and>
   worker (test_env [] net_down) stock_A = Some zero_Selection \<and>
   phase both_failed \<noteq> Panicked \<and>
   set (selections both_failed) \<subseteq> {zero_Selection}"
proof -
  have h1: "stock_A \<in> set [stock_A, stock_B]" by simp
  note h2 = fetch_down [of "[]" "Ticker stock_A"]
  note h3 = full_run_down
  have h4: "\<forall>s'\<in>set [stock_A, stock_B]. \<exists>err'.
              FetchNews (test_env [] net_down) (Ticker s') = Some (Inl err')"
    by (simp add: fetch_down)
  have h5: "\<exists>err'. FetchNews (test_env [] net_down) (Ticker stock_B) = Some (Inl err')"
    by (simp add: fetch_down)
  from failed_fetch_sends_zero_selection [OF h1 h2 h3] h4
  have "phase both_failed \<noteq> Panicked"
    and "worker (test_env [] net_down) stock_A = Some zero_Selection"
    and "\<forall>x\<in>set (selections both_failed). x = zero_Selection"
    by blast+
  then have "phase both_failed \<noteq> Panicked"
    and "worker (test_env [] net_down) stock_A = Some zero_Selection"
    and "set (selections both_failed) \<subseteq> {zero_Selection}"
    by auto
  with h1 h2 h3 h5 show ?thesis by blast
qed

section \<open>Properties of FetchNews\<close>

lemma collect_articles_map:
  "collect_articles items acc =
     acc @ map (\<lambda>item. \<lparr>PublishOn = publishOn (Attributes item),
                          Headline = title (Attributes item)\<rparr>) items"
  by (induction items arbitrary: acc) simp_all

text \<open>
  When \<open>FetchNews\<close> returns, it returns an error exactly when the request cannot be built,
  the call fails, or the status is outside 200 to 299; what \<open>Decode\<close> returns plays no
  part.
\<close>

lemma FetchNews_error_iff:
  "(\<exists>err. FetchNews e t = Some (Inl err)) \<longleftrightarrow>
     (case newRequest e ''GET'' (url @ t) of
        Inl err \<Rightarrow> True
      | Inr req \<Rightarrow>
          (case doRequest e (req\<lparr>Header := Header req @ [(apiKeyHeader, apiKey)]\<rparr>) of
             None \<Rightarrow> False
           | Some (Inl err) \<Rightarrow> True
           | Some (Inr resp) \<Rightarrow> StatusCode resp < 200 \<or> 299 < StatusCode resp))"
  by (simp add: FetchNews_def Let_def split: sum.splits option.splits)

text \<open>
  On a status from 200 to 299 the result is one article for each item that the decoding
  left in \<open>res.Data\<close>, in order, with no error.
\<close>

lemma FetchNews_success:
  assumes "newRequest e ''GET'' (url @ t) = Inr req"
    and "doRequest e (req\<lparr>Header := Header req @ [(apiKeyHeader, apiKey)]\<rparr>) = Some (Inr resp)"
    and "200 \<le> StatusCode resp" and "StatusCode resp \<le> 299"
  shows "FetchNews e t =
           Some (Inr (map (\<lambda>item. \<lparr>PublishOn = publishOn (Attributes item),
                                     Headline = title (Attributes item)\<rparr>)
                          (Data (fst (jsonDecode e (Body resp))))))"
  using assms by (simp add: FetchNews_def Let_def collect_articles_map)

text \<open>
  C3. The code departs from the claim on a response with status 200 whose body does not
  decode: \<open>Decode\<close> returns an error, and \<open>FetchNews\<close> returns no article and no error.
\<close>

theorem FetchNews_drops_decode_error:
  "doRequest (test_env [] (net_reply ''<html>''))
     \<lparr>Method = ''GET'', URL = url @ ''AAA'', Header = [(apiKeyHeader, apiKey)]\<rparr>
     = Some (Inr \<lparr>StatusCode = 200, Body = ''<html>''\<rparr>) \<and>
   snd (jsonDecode (test_env [] (net_reply ''<html>'')) ''<html>'')
     = Some (LibError ''invalid character'') \<and>
   FetchNews (test_env [] (net_reply ''<html>'')) ''AAA'' = Some (Inr [])"
  by (simp add: FetchNews_def test_env_def net_reply_def test_decode_def)

section \<open>The pipeline: workers, waiting, order\<close>

text \<open>
  C4, as stated, fails: with three stocks, three workers are live at once, one for each
  stock; nothing in the program bounds their number.
\<close>

theorem one_worker_per_stock_example:
  "map_option (\<lambda>st. (todo st, running st))
     (exec (test_env [] net_down) [Main, Main, Main] (init [stock_A, stock_B, stock_N]))
   = Some ([], [stock_A, stock_B, stock_N])"
  by (simp add: step_def init_def)

text \<open>
  C4, amended. \<open>main\<close> starts one worker for each stock, with no pool and no limit: once
  the spawning loop is over, and before any worker has sent, all \<open>N\<close> workers are live;
  the number of live workers never exceeds \<open>N\<close>.
\<close>

theorem workers_one_per_stock:
  "exec e (replicate (length ss) Main) (init ss) = Some ((init ss)\<lparr>todo := [], running := ss\<rparr>) \<and>
   (exec e sched (init ss) = Some st \<longrightarrow> length (running st) \<le> length ss)"
proof -
  have "phase (init ss) = Active" by (simp add: init_def)
  then have "exec e (replicate (length (todo (init ss))) Main) (init ss)
     = Some ((init ss)\<lparr>todo := [], running := running (init ss) @ todo (init ss)\<rparr>)"
    by (rule spawn_all)
  then have "exec e (replicate (length ss) Main) (init ss)
     = Some ((init ss)\<lparr>todo := [], running := ss\<rparr>)"
    by (simp add: init_def)
  then show ?thesis using running_bounded by blast
qed

theorem workers_one_per_stock_witness:
  "exec (test_env [] net_down) [Main, Main] (init [stock_A, stock_B])
     = Some ((init [stock_A, stock_B])\<lparr>todo := [], running := [stock_A, stock_B]\<rparr>) \<and>
   length (running ((init [stock_A, stock_B])\<lparr>todo := [], running := [stock_A, stock_B]\<rparr>))
     \<le> length [stock_A, stock_B]"
proof -
  have h: "exec (test_env [] net_down) [Main, Main] (init [stock_A, stock_B])
     = Some ((init [stock_A, stock_B])\<lparr>todo := [], running := [stock_A, stock_B]\<rparr>)"
    by (simp add: step_def init_def)
  from workers_one_per_stock [of "test_env [] net_down" "[stock_A, stock_B]" "[Main, Main]"
      "(init [stock_A, stock_B])\<lparr>todo := [], running := [stock_A, stock_B]\<rparr>"] h
  show ?thesis by blast
qed

text \<open>
  C5, as stated, fails: when the provider never answers, no run over one stock ever
  reaches \<open>Deliver\<close>, with a full result or a partial one.
\<close>

theorem silent_provider_blocks_the_run:
  "\<not> (\<exists>sched st. exec (test_env [] net_silent) sched (init [stock_A]) = Some st \<and>
                   phase st = Delivered)"
proof
  assume "\<exists>sched st. exec (test_env [] net_silent) sched (init [stock_A]) = Some st \<and>
                      phase st = Delivered"
  then obtain sched st where r: "exec (test_env [] net_silent) sched (init [stock_A]) = Some st"
    and d: "phase st = Delivered" by blast
  have "stock_A \<in> set [stock_A]" by simp
  from hung_never_delivered [OF this fetch_silent r] d show False by simp
qed

text \<open>
  C5, amended. The request is made by a client with no timeout and the program has no
  deadline: if the fetch of one stock of the batch never returns, no run reaches
  \<open>Deliver\<close>, so no result, full or partial, is handed over.
\<close>

theorem hanging_fetch_never_delivers:
  assumes "s \<in> set ss"
    and "FetchNews e (Ticker s) = None"
    and "exec e sched (init ss) = Some st"
  shows "phase st \<noteq> Delivered"
  using assms by (rule hung_never_delivered)

theorem hanging_fetch_never_delivers_witness:
  "stock_A \<in> set [stock_A] \<and>
   FetchNews (test_env [] net_silent) (Ticker stock_A) = None \<and>
   exec (test_env [] net_silent) [Main] (init [stock_A])
     = Some ((init [stock_A])\<lparr>todo := [], running := [stock_A]\<rparr>) \<and>
   phase ((init [stock_A])\<lparr>todo := [], running := [stock_A]\<rparr>) \<noteq> Delivered"
proof -
  have h1: "stock_A \<in> set [stock_A]" by simp
  note h2 = fetch_silent [of "[]" "Ticker stock_A"]
  have h3: "exec (test_env [] net_silent) [Main] (init [stock_A])
     = Some ((init [stock_A])\<lparr>todo := [], running := [stock_A]\<rparr>)"
    by (simp add: step_def init_def)
  from hanging_fetch_never_delivers [OF h1 h2 h3] h1 h2 h3 show ?thesis by blast
qed

lemma worker_news: "worker news_env s = Some (news_selection s)"
  by (simp add: worker_def FetchNews_def news_selection_def news_env_def test_env_def
      net_reply_def test_decode_def test_item_def)

lemma full_run_news:
  "exec news_env full_run (init [stock_A, stock_B])
     = Some (delivered [stock_A, stock_B] [news_selection stock_A, news_selection stock_B])"
  by (simp add: full_run_def delivered_def step_def init_def worker_news)

lemma swapped_run_news:
  "exec news_env swapped_run (init [stock_A, stock_B])
     = Some (delivered [stock_A, stock_B] [news_selection stock_B, news_selection stock_A])"
  by (simp add: swapped_run_def delivered_def step_def init_def worker_news)

text \<open>
  C9, as stated, fails: over the same two stocks and the same provider, the run in which
  the first worker sends first and the run in which the second does hand over the two
  records in opposite orders.
\<close>

theorem arrival_order_decides_result_order:
  "map_option (\<lambda>st. (phase st, map sTicker (selections st)))
     (exec news_env full_run (init [stock_A, stock_B])) = Some (Delivered, [''AAA'', ''BBB'']) \<and>
   map_option (\<lambda>st. (phase st, map sTicker (selections st)))
     (exec news_env swapped_run (init [stock_A, stock_B])) = Some (Delivered, [''BBB'', ''AAA''])"
proof -
  have "Ticker stock_A = ''AAA''" and "Ticker stock_B = ''BBB''"
    by (simp_all add: stock_A_def stock_B_def)
  then show ?thesis
    by (simp add: full_run_news swapped_run_news delivered_def news_selection_def)
qed

text \<open>
  C9, amended. The records are handed over in the order in which they arrived, which is
  not sorted: two runs over the same stocks and the same provider that reach \<open>Deliver\<close>
  hand over the same records, each as often, possibly in different orders.
\<close>

theorem complete_runs_agree_up_to_order:
  assumes "exec e sched1 (init ss) = Some st1" and "phase st1 = Delivered"
    and "exec e sched2 (init ss) = Some st2" and "phase st2 = Delivered"
  shows "mset (selections st1) = mset (selections st2)"
proof -
  from delivered_all [OF inv_exec [OF assms(1)] assms(2)]
  have "mset (map Some (selections st1)) = mset (map (worker e) ss)" by blast
  moreover from delivered_all [OF inv_exec [OF assms(3)] assms(4)]
  have "mset (map Some (selections st2)) = mset (map (worker e) ss)" by blast
  ultimately have "mset (map Some (selections st1)) = mset (map Some (selections st2))"
    by simp
  then show ?thesis by (rule mset_map_Some_eq)
qed

theorem complete_runs_agree_up_to_order_witness:
  "exec news_env full_run (init [stock_A, stock_B])
     = Some (delivered [stock_A, stock_B] [news_selection stock_A, news_selection stock_B]) \<and>
   phase (delivered [stock_A, stock_B] [news_selection stock_A, news_selection stock_B])
     = Delivered \<and>
   exec news_env swapped_run (init [stock_A, stock_B])
     = Some (delivered [stock_A, stock_B] [news_selection stock_B, news_selection stock_A]) \<and>
   phase (delivered [stock_A, stock_B] [news_selection stock_B, news_selection stock_A])
     = Delivered \<and>
   mset (selections (delivered [stock_A, stock_B] [news_selection stock_A, news_selection stock_B]))
     = mset (selections (delivered [stock_A, stock_B] [news_selection stock_B, news_selection stock_A]))"
proof -
  have p: "phase (delivered ss sels) = Delivered" for ss sels
    by (simp add: delivered_def)
  from complete_runs_agree_up_to_order [OF full_run_news p swapped_run_news p]
    full_run_news swapped_run_news p
  show ?thesis by blast
qed

section \<open>The filter\<close>

lemma not_unworthy: "\<not> unworthy s \<longleftrightarrow> fge (fabs (Gap s)) minGap \<or> Gap s = NaN"
  by (cases "Gap s") (auto simp: unworthy_def minGap_def)

lemma Load_nan_row:
  "Load (test_env [header_row, [''NNN'', ''NaN'', ''50'']] net_down) ''./opg.csv''
     = Value [stock_N]"
  by (simp add: Load_def slices_Delete_def index_def test_env_def test_parse_def stock_N_def)

lemma Load_low_row:
  "Load (test_env [header_row, [''AAA'', ''0.25'', ''50''], [''LOW'', ''0.0625'', ''50'']] net_down)
     ''./opg.csv'' = Value [stock_A, stock_L]"
  by (simp add: Load_def slices_Delete_def index_def test_env_def test_parse_def
      stock_A_def stock_L_def)

lemma unworthy_examples: "\<not> unworthy stock_A" "unworthy stock_L" "\<not> unworthy stock_N"
  by (simp_all add: unworthy_def minGap_def stock_A_def stock_L_def stock_N_def)

text \<open>
  C7, as stated, fails: a row whose gap field reads \<open>NaN\<close> parses, its stock passes the
  filter, since no comparison with NaN holds, and it reaches the analysis although its
  absolute gap is not at least the threshold.
\<close>

theorem nan_gap_reaches_analysis:
  "main_start (test_env [header_row, [''NNN'', ''NaN'', ''50'']] net_down)
     = Value (init [stock_N]) \<and>
   \<not> fge (fabs (Gap stock_N)) minGap"
proof -
  have "\<not> fge (fabs (Gap stock_N)) minGap" by (simp add: stock_N_def)
  then show ?thesis
    by (simp add: main_start_def Load_nan_row slices_DeleteFunc_def unworthy_examples)
qed

text \<open>
  C7, amended. The filter runs before any analysis and deletes exactly the loaded stocks
  whose absolute gap is below the threshold. In every state of a run, each stock waiting
  for a worker or held by one is a loaded stock whose absolute gap is at least the
  threshold or whose gap is NaN; each record buffered or collected was sent by the
  worker of such a stock; and a loaded stock with an absolute gap below the threshold is
  not among the stocks of the run. The stocks of the run are exactly the loaded stocks
  for which the comparison with the threshold fails, in the order of loading: a loaded
  stock is among them if and only if its absolute gap is at least the threshold or its
  gap is NaN; and each of them is waiting for a worker, held by one, or has its record
  buffered or collected.
\<close>

theorem filter_before_analysis:
  assumes "Load e ''./opg.csv'' = Value loaded"
    and "main_start e = Value st0"
    and "exec e sched st0 = Some st"
  shows "(\<forall>s\<in>set (todo st @ running st).
            s \<in> set loaded \<and> (fge (fabs (Gap s)) minGap \<or> Gap s = NaN)) \<and>
         (\<forall>x\<in>set (chan st @ selections st).
            \<exists>s\<in>set loaded. (fge (fabs (Gap s)) minGap \<or> Gap s = NaN) \<and> worker e s = Some x) \<and>
         (\<forall>s\<in>set loaded. flt (fabs (Gap s)) minGap \<longrightarrow> s \<notin> set (stocks st)) \<and>
         stocks st = filter (\<lambda>s. \<not> flt (fabs (Gap s)) minGap) loaded \<and>
         (\<forall>s\<in>set loaded.
            s \<in> set (stocks st) \<longleftrightarrow> fge (fabs (Gap s)) minGap \<or> Gap s = NaN) \<and>
         mset (map Some (selections st @ chan st)) + mset (map (worker e) (running st @ todo st))
           = mset (map (worker e) (stocks st))"
proof -
  let ?ss = "slices_DeleteFunc loaded unworthy"
  from assms(1,2) have st0: "st0 = init ?ss" by (simp add: main_start_def)
  with assms(3) have i: "inv e ?ss st" using inv_exec by blast
  have kept: "s \<in> set loaded \<and> (fge (fabs (Gap s)) minGap \<or> Gap s = NaN)" if "s \<in> set ?ss" for s
    using that not_unworthy [of s] by (simp add: slices_DeleteFunc_def)
  have a: "\<forall>s\<in>set (todo st @ running st).
            s \<in> set loaded \<and> (fge (fabs (Gap s)) minGap \<or> Gap s = NaN)"
  proof
    fix s
    assume "s \<in> set (todo st @ running st)"
    with i have "s \<in> set ?ss" by (auto simp: inv_def)
    then show "s \<in> set loaded \<and> (fge (fabs (Gap s)) minGap \<or> Gap s = NaN)" by (rule kept)
  qed
  have b: "\<forall>x\<in>set (chan st @ selections st).
            \<exists>s\<in>set loaded. (fge (fabs (Gap s)) minGap \<or> Gap s = NaN) \<and> worker e s = Some x"
  proof
    fix x
    assume "x \<in> set (chan st @ selections st)"
    then have "Some x \<in># accounted e st" by (auto simp: accounted_def)
    with i have "Some x \<in># mset (map (worker e) ?ss)" by (simp add: inv_def)
    then obtain s where s: "s \<in> set ?ss" "worker e s = Some x" by auto
    from kept [OF s(1)] s(2)
    show "\<exists>s\<in>set loaded. (fge (fabs (Gap s)) minGap \<or> Gap s = NaN) \<and> worker e s = Some x"
      by blast
  qed
  have c: "\<forall>s\<in>set loaded. flt (fabs (Gap s)) minGap \<longrightarrow> s \<notin> set (stocks st)"
  proof (intro ballI impI)
    fix s
    assume "s \<in> set loaded" and "flt (fabs (Gap s)) minGap"
    then have "s \<notin> set ?ss" by (simp add: slices_DeleteFunc_def unworthy_def)
    moreover from i have "stocks st = ?ss" unfolding inv_def by blast
    ultimately show "s \<notin> set (stocks st)" by simp
  qed
  from i have stocks: "stocks st = ?ss" unfolding inv_def by blast
  have d: "stocks st = filter (\<lambda>s. \<not> flt (fabs (Gap s)) minGap) loaded"
    using stocks by (simp add: slices_DeleteFunc_def unworthy_def)
  have f: "\<forall>s\<in>set loaded.
            s \<in> set (stocks st) \<longleftrightarrow> fge (fabs (Gap s)) minGap \<or> Gap s = NaN"
  proof
    fix s
    assume "s \<in> set loaded"
    then have "s \<in> set (stocks st) \<longleftrightarrow> \<not> unworthy s"
      using stocks by (simp add: slices_DeleteFunc_def)
    then show "s \<in> set (stocks st) \<longleftrightarrow> fge (fabs (Gap s)) minGap \<or> Gap s = NaN"
      using not_unworthy [of s] by simp
  qed
  from i have "accounted e st = mset (map (worker e) ?ss)" unfolding inv_def by blast
  with stocks have g: "mset (map Some (selections st @ chan st))
      + mset (map (worker e) (running st @ todo st)) = mset (map (worker e) (stocks st))"
    by (simp add: accounted_def)
  show ?thesis
    using a b c d f g by (intro conjI)
qed

theorem filter_before_analysis_witness:
  "Load (test_env [header_row, [''AAA'', ''0.25'', ''50''], [''LOW'', ''0.0625'', ''50'']] net_down)
     ''./opg.csv'' = Value [stock_A, stock_L] \<and>
   main_start (test_env [header_row, [''AAA'', ''0.25'', ''50''], [''LOW'', ''0.0625'', ''50'']] net_down)
     = Value (init [stock_A]) \<and>
   exec (test_env [header_row, [''AAA'', ''0.25'', ''50''], [''LOW'', ''0.0625'', ''50'']] net_down)
     [Main] (init [stock_A]) = Some ((init [stock_A])\<lparr>todo := [], running := [stock_A]\<rparr>) \<and>
   stock_L \<in> set [stock_A, stock_L] \<and> flt (fabs (Gap stock_L)) minGap \<and>
   stock_L \<notin> set (stocks ((init [stock_A])\<lparr>todo := [], running := [stock_A]\<rparr>)) \<and>
   stock_A \<in> set (running ((init [stock_A])\<lparr>todo := [], running := [stock_A]\<rparr>)) \<and>
   (fge (fabs (Gap stock_A)) minGap \<or> Gap stock_A = NaN) \<and>
   stocks ((init [stock_A])\<lparr>todo := [], running := [stock_A]\<rparr>)
     = filter (\<lambda>s. \<not> flt (fabs (Gap s)) minGap) [stock_A, stock_L] \<and>
   filter (\<lambda>s. \<not> flt (fabs (Gap s)) minGap) [stock_A, stock_L] = [stock_A]"
proof -
  let ?e = "test_env [header_row, [''AAA'', ''0.25'', ''50''], [''LOW'', ''0.0625'', ''50'']] net_down"
  let ?st = "(init [stock_A])\<lparr>todo := [], running := [stock_A]\<rparr>"
  note h1 = Load_low_row
  have h2: "main_start ?e = Value (init [stock_A])"
    by (simp add: main_start_def Load_low_row slices_DeleteFunc_def unworthy_examples)
  have h3: "exec ?e [Main] (init [stock_A]) = Some ?st"
    by (simp add: step_def init_def)
  have l: "stock_L \<in> set [stock_A, stock_L]" by simp
  have u: "flt (fabs (Gap stock_L)) minGap"
    using unworthy_examples(2) by (simp add: unworthy_def)
  have r: "stock_A \<in> set (running ?st)" by simp
  then have r': "stock_A \<in> set (todo ?st @ running ?st)" by simp
  from filter_before_analysis [OF h1 h2 h3] r' u l
  have "fge (fabs (Gap stock_A)) minGap \<or> Gap stock_A = NaN"
    and "stock_L \<notin> set (stocks ?st)"
    and "stocks ?st = filter (\<lambda>s. \<not> flt (fabs (Gap s)) minGap) [stock_A, stock_L]"
    by blast+
  moreover have "filter (\<lambda>s. \<not> flt (fabs (Gap s)) minGap) [stock_A, stock_L] = [stock_A]"
    using unworthy_examples(1,2) by (simp add: unworthy_def)
  ultimately show ?thesis using h1 h2 h3 l u r by blast
qed


end
